theory Spec2Isabelle
  imports Main "HOL-Library.Word" "HOL-Library.Char_ord"
begin

section \<open>Strings, hex digests and the library calls of the Go sources\<close>

text \<open>
  A Go \<^verbatim>\<open>string\<close> is a sequence of bytes, so it is a \<^typ>\<open>string\<close> here
  (a list of 8-bit characters) and \<^verbatim>\<open>len\<close> is \<^const>\<open>length\<close>.

  \<^verbatim>\<open>isValidHex\<close> ranges over the runes of its argument. A byte below 0x80 is its
  own rune; a byte from 0x80 on yields a rune that is at least 0x80 (or the
  replacement rune U+FFFD), which no branch of the test accepts. Testing every
  byte is therefore the same loop, with the same early \<^verbatim>\<open>return false\<close>.
\<close>

definition isHexRune :: "char \<Rightarrow> bool" where
  "isHexRune r \<longleftrightarrow>
     (CHR ''0'' \<le> r \<and> r \<le> CHR ''9'') \<or> (CHR ''a'' \<le> r \<and> r \<le> CHR ''f'')
       \<or> (CHR ''A'' \<le> r \<and> r \<le> CHR ''F'')"

fun isValidHex :: "string \<Rightarrow> bool" where
  "isValidHex [] = True"
| "isValidHex (r # s) = (if \<not> isHexRune r then False else isValidHex s)"

text \<open>
  \<^verbatim>\<open>sha1.Sum\<close> returns a \<^verbatim>\<open>[20]byte\<close>: the digest is a 160-bit word, read
  big-endian as its twenty bytes. \<^verbatim>\<open>fmt.Sprintf("%x", ...)\<close> of a byte array
  prints every byte as two lowercase hex digits, high nibble first.
\<close>

type_synonym digest = "160 word"

definition digest_bytes :: "digest \<Rightarrow> 8 word list" where
  "digest_bytes d = map (\<lambda>i. ucast (drop_bit (8 * i) d)) (rev [0..<20])"

definition ldigits :: string where
  "ldigits = ''0123456789abcdef''"

definition hexDigit :: "nat \<Rightarrow> char" where
  "hexDigit n = ldigits ! (n mod 16)"

definition Sprintf_x :: "8 word list \<Rightarrow> string" where
  "Sprintf_x bs = concat (map (\<lambda>b. [hexDigit (unat b div 16), hexDigit (unat b mod 16)]) bs)"

text \<open>\<^verbatim>\<open>strings.Join(elems, sep)\<close>.\<close>

fun Join :: "string list \<Rightarrow> string \<Rightarrow> string" where
  "Join [] sep = []"
| "Join [a] sep = a"
| "Join (a # b # elems) sep = a @ sep @ Join (b # elems) sep"

text \<open>
  \<^verbatim>\<open>strings.Split(s, sep)\<close> for a separator of one byte (the source only splits
  at \<^verbatim>\<open>"/"\<close>): the pieces between the separators, so a string without the
  separator gives one piece and the empty string gives one empty piece.
\<close>

fun Split :: "string \<Rightarrow> char \<Rightarrow> string list" where
  "Split [] sep = [[]]"
| "Split (c # s) sep =
     (if c = sep then [] # Split s sep
      else (case Split s sep of p # ps \<Rightarrow> (c # p) # ps | [] \<Rightarrow> [[c]]))"

text \<open>
  \<^verbatim>\<open>strings.TrimSpace\<close> removes the leading and the trailing runes that
  \<^verbatim>\<open>unicode.IsSpace\<close> accepts. On the bytes of the string these are the UTF-8
  encodings below: tab, line feed, vertical tab, form feed, carriage return,
  space, U+0085, U+00A0, U+1680, U+2000 to U+200A, U+2028, U+2029, U+202F,
  U+205F and U+3000.
\<close>

definition unicode_spaces :: "string list" where
  "unicode_spaces =
     [[CHR 0x09], [CHR 0x0A], [CHR 0x0B], [CHR 0x0C], [CHR 0x0D], [CHR 0x20],
      [CHR 0xC2, CHR 0x85], [CHR 0xC2, CHR 0xA0],
      [CHR 0xE1, CHR 0x9A, CHR 0x80],
      [CHR 0xE2, CHR 0x80, CHR 0x80], [CHR 0xE2, CHR 0x80, CHR 0x81],
      [CHR 0xE2, CHR 0x80, CHR 0x82], [CHR 0xE2, CHR 0x80, CHR 0x83],
      [CHR 0xE2, CHR 0x80, CHR 0x84], [CHR 0xE2, CHR 0x80, CHR 0x85],
      [CHR 0xE2, CHR 0x80, CHR 0x86], [CHR 0xE2, CHR 0x80, CHR 0x87],
      [CHR 0xE2, CHR 0x80, CHR 0x88], [CHR 0xE2, CHR 0x80, CHR 0x89],
      [CHR 0xE2, CHR 0x80, CHR 0x8A],
      [CHR 0xE2, CHR 0x80, CHR 0xA8], [CHR 0xE2, CHR 0x80, CHR 0xA9],
      [CHR 0xE2, CHR 0x80, CHR 0xAF],
      [CHR 0xE2, CHR 0x81, CHR 0x9F],
      [CHR 0xE3, CHR 0x80, CHR 0x80]]"

definition leading_space :: "string \<Rightarrow> nat" where
  "leading_space s =
     (case find (\<lambda>e. take (length e) s = e) unicode_spaces of
        None \<Rightarrow> 0 | Some e \<Rightarrow> length e)"

definition trailing_space :: "string \<Rightarrow> nat" where
  "trailing_space s =
     (case find (\<lambda>e. length e \<le> length s \<and> drop (length s - length e) s = e) unicode_spaces of
        None \<Rightarrow> 0 | Some e \<Rightarrow> length e)"

function TrimLeft :: "string \<Rightarrow> string" where
  "TrimLeft s = (if leading_space s = 0 then s else TrimLeft (drop (leading_space s) s))"
  by pat_completeness auto
termination
proof (relation "measure length")
  fix s :: string
  assume "leading_space s \<noteq> 0"
  then have "s \<noteq> []"
    by (auto simp: leading_space_def find_Some_iff split: option.splits)
  with \<open>leading_space s \<noteq> 0\<close> show "(drop (leading_space s) s, s) \<in> measure length"
    by (cases s) auto
qed simp

function TrimRight :: "string \<Rightarrow> string" where
  "TrimRight s =
     (if trailing_space s = 0 then s else TrimRight (take (length s - trailing_space s) s))"
  by pat_completeness auto
termination
proof (relation "measure length")
  fix s :: string
  assume "trailing_space s \<noteq> 0"
  then have "s \<noteq> []"
    by (auto simp: trailing_space_def find_Some_iff split: option.splits)
  with \<open>trailing_space s \<noteq> 0\<close>
  show "(take (length s - trailing_space s) s, s) \<in> measure length"
    by (cases s) auto
qed simp

definition TrimSpace :: "string \<Rightarrow> string" where
  "TrimSpace s = TrimRight (TrimLeft s)"

section \<open>Attachments and the object store\<close>

text \<open>
  \<^verbatim>\<open>time.Time\<close> is a point in time, \<^verbatim>\<open>textproto.MIMEHeader\<close> a Go map from
  header names to their values. \<^verbatim>\<open>Size\<close> and the database's integers are only
  copied, never computed with, so they are plain integers.
\<close>

type_synonym go_time = int
type_synonym MIMEHeader = "string \<rightharpoonup> string list"

datatype file_error = FailedOpen | FailedRead

text \<open>
  A \<^verbatim>\<open>multipart.FileHeader\<close>: its three public fields, and what
  \<^verbatim>\<open>fileHeader.Open()\<close> followed by \<^verbatim>\<open>io.ReadAll\<close> delivers.
\<close>

record FileHeader =
  fh_Filename :: string
  fh_Header :: MIMEHeader
  fh_Size :: int
  fh_Open :: "file_error + string"

record FileObject =
  Filename :: string
  Header :: MIMEHeader
  Size :: int
  Modtime :: go_time
  Contents :: string

definition NewFileObject :: "FileHeader \<Rightarrow> go_time \<Rightarrow> file_error + FileObject" where
  "NewFileObject fileHeader modtime =
     (case fh_Open fileHeader of
        Inl err \<Rightarrow> Inl err
      | Inr contents \<Rightarrow>
          Inr \<lparr>Filename = fh_Filename fileHeader, Header = fh_Header fileHeader,
               Size = fh_Size fileHeader, Modtime = modtime, Contents = contents\<rparr>)"

text \<open>
  The packages the program calls but does not contain are parameters of the
  model: \<^verbatim>\<open>crypto/sha1\<close>'s \<^verbatim>\<open>Sum\<close>, \<^verbatim>\<open>encoding/gob\<close>'s encoder (the bytes
  in the buffer after \<^verbatim>\<open>Encode\<close>, whose error the handler drops) and decoder
  (what \<^verbatim>\<open>Decode\<close> leaves in a fresh \<^verbatim>\<open>FileObject\<close>, and whether it returned
  an error), and the \<^verbatim>\<open>BASEURL\<close> of the environment. Every theorem below holds
  for all of them.
\<close>

record extern =
  sha1_Sum :: "string \<Rightarrow> digest"
  gob_Encode :: "FileObject \<Rightarrow> string"
  gob_Decode :: "string \<Rightarrow> FileObject \<times> bool"
  baseurl :: string

text \<open>\<^verbatim>\<open>fmt.Sprintf("%x", sha1.Sum(data))\<close>, as both hashes are computed.\<close>

definition sha1_hex :: "extern \<Rightarrow> string \<Rightarrow> string" where
  "sha1_hex ext data = Sprintf_x (digest_bytes (sha1_Sum ext data))"

text \<open>
  The bucket is a map from object keys to blobs. Whether the transfer fails is
  the network's choice, so it is an argument: \<open>upload_err\<close> is the error of
  \<^verbatim>\<open>S3Manager.Upload\<close> (none when it succeeds), \<open>wait_err\<close> says that the
  waiter for the object's existence failed. \<^verbatim>\<open>UploadObject\<close> returns the
  first error as it is (\<^verbatim>\<open>errors.As\<close> only unwraps a \<^verbatim>\<open>NoSuchBucket\<close>); the
  waiter's error is bound to a variable of the inner block and is only logged.
\<close>

datatype s3_error = NoSuchBucket | NoSuchKey | S3Failure

type_synonym bucket = "string \<rightharpoonup> string"

definition UploadObject ::
  "s3_error option \<Rightarrow> bool \<Rightarrow> bucket \<Rightarrow> string \<Rightarrow> string \<Rightarrow> bucket \<times> string \<times> s3_error option" where
  "UploadObject upload_err wait_err bkt key contents =
     (case upload_err of
        Some err \<Rightarrow> (bkt, [], Some (case err of NoSuchBucket \<Rightarrow> NoSuchBucket | _ \<Rightarrow> err))
      | None \<Rightarrow> (bkt(key \<mapsto> contents), if wait_err then [] else key, None))"

definition DownloadLargeObject :: "s3_error option \<Rightarrow> bucket \<Rightarrow> string \<Rightarrow> s3_error + string" where
  "DownloadLargeObject download_err bkt objectKey =
     (case download_err of
        Some err \<Rightarrow> Inl err
      | None \<Rightarrow> (case bkt objectKey of None \<Rightarrow> Inl NoSuchKey | Some data \<Rightarrow> Inr data))"

section \<open>The Uploads table\<close>

text \<open>
  A row of \<^verbatim>\<open>Uploads(id BIGSERIAL PRIMARY KEY, hash CHAR(40) NOT NULL UNIQUE,
  body TEXT, files TEXT ARRAY, timestamp BIGINT NOT NULL)\<close>. The table is the
  list of its rows in the order of insertion, with the next value of the
  sequence behind \<^verbatim>\<open>id\<close>.
\<close>

record upload_row =
  row_id :: int
  row_hash :: string
  row_body :: string
  row_files :: "string list"
  row_timestamp :: int

record uploads_db =
  rows :: "upload_row list"
  next_id :: int

text \<open>
  An error of \<^verbatim>\<open>db.Exec\<close> or of the query is either a \<^verbatim>\<open>*pq.Error\<close> with its
  SQLSTATE code or any other error (a lost connection, say).
\<close>

datatype db_error = PqError string | DriverError

text \<open>
  The \<^verbatim>\<open>INSERT\<close>. \<open>fault\<close> is a failure that does not come from the table
  (none when the statement reaches it). The statement draws the next \<^verbatim>\<open>id\<close>
  and then meets the \<^verbatim>\<open>UNIQUE\<close> constraint on \<^verbatim>\<open>hash\<close>: a row with the same
  hash makes it fail with SQLSTATE 23505 and leaves the rows as they were.
\<close>

definition insert_upload ::
  "db_error option \<Rightarrow> uploads_db \<Rightarrow> string \<Rightarrow> string \<Rightarrow> string list \<Rightarrow> int
     \<Rightarrow> uploads_db \<times> db_error option" where
  "insert_upload fault d hash body files timestamp =
     (case fault of
        Some err \<Rightarrow> (d, Some err)
      | None \<Rightarrow>
          if list_ex (\<lambda>r. row_hash r = hash) (rows d)
          then (d\<lparr>next_id := next_id d + 1\<rparr>, Some (PqError ''23505''))
          else (\<lparr>rows = rows d @ [\<lparr>row_id = next_id d, row_hash = hash, row_body = body,
                                    row_files = files, row_timestamp = timestamp\<rparr>],
                 next_id = next_id d + 1\<rparr>, None))"

text \<open>
  \<^verbatim>\<open>SubmitUpload\<close>: \<open>now\<close> is \<^verbatim>\<open>time.Now().UTC().Unix()\<close>. The result is the
  table afterwards with Go's pair \<^verbatim>\<open>(hash, nil)\<close> as \<open>Inr hash\<close> and
  \<^verbatim>\<open>("", err)\<close> as \<open>Inl err\<close>.
\<close>

definition SubmitUpload ::
  "extern \<Rightarrow> db_error option \<Rightarrow> int \<Rightarrow> uploads_db \<Rightarrow> string \<Rightarrow> string list
     \<Rightarrow> uploads_db \<times> (db_error + string)" where
  "SubmitUpload ext fault now d body fileNameHashPairs =
     (let buffer = body @ Join fileNameHashPairs [];
          hash = sha1_hex ext buffer
      in case insert_upload fault d hash body fileNameHashPairs now of
           (d', Some err) \<Rightarrow>
             (case err of
                PqError code \<Rightarrow> if code = ''23505'' then (d', Inr hash) else (d', Inl err)
              | DriverError \<Rightarrow> (d', Inl err))
         | (d', None) \<Rightarrow> (d', Inr hash))"

text \<open>
  The \<^verbatim>\<open>UploadModel\<close> and \<^verbatim>\<open>GetUpload\<close>. The query
  \<^verbatim>\<open>SELECT * FROM Uploads WHERE hash LIKE $1 || '%'\<close> runs only on a validated
  \<open>hash\<close>, which holds no wildcard of \<^verbatim>\<open>LIKE\<close>, so it selects the rows whose
  hash starts with it; \<^verbatim>\<open>QueryRow\<close> keeps the first row of the result (here
  the first in the table's order) and \<^verbatim>\<open>Scan\<close> returns \<^verbatim>\<open>sql.ErrNoRows\<close>
  when there is none. The loop over \<^verbatim>\<open>files\<close> indexes \<^verbatim>\<open>parts[1]\<close>: an entry
  without a \<^verbatim>\<open>"/"\<close> makes the program panic (index out of range).
\<close>

record UploadModel =
  Id' :: int
  Hash :: string
  Body :: string
  FileNames :: "string list"
  FileHashes :: "string list"
  Timestamp :: int

datatype get_error = ErrHashInvalid | ErrNoRows | QueryFailed db_error | PanicIndexOutOfRange

definition query_row :: "db_error option \<Rightarrow> uploads_db \<Rightarrow> string \<Rightarrow> get_error + upload_row" where
  "query_row fault d hash =
     (case fault of
        Some err \<Rightarrow> Inl (QueryFailed err)
      | None \<Rightarrow>
          (case find (\<lambda>r. take (length hash) (row_hash r) = hash) (rows d) of
             None \<Rightarrow> Inl ErrNoRows
           | Some r \<Rightarrow> Inr r))"

fun split_files :: "string list \<Rightarrow> (string list \<times> string list) option" where
  "split_files [] = Some ([], [])"
| "split_files (file # files) =
     (case Split file (CHR ''/'') of
        p0 # p1 # _ \<Rightarrow>
          (case split_files files of
             None \<Rightarrow> None
           | Some (names, hashes) \<Rightarrow> Some (p0 # names, p1 # hashes))
      | _ \<Rightarrow> None)"

definition GetUpload :: "db_error option \<Rightarrow> uploads_db \<Rightarrow> string \<Rightarrow> get_error + UploadModel" where
  "GetUpload fault d hash =
     (if length hash < 10 \<or> length hash > 40 \<or> \<not> isValidHex hash then Inl ErrHashInvalid
      else case query_row fault d hash of
             Inl err \<Rightarrow> Inl err
           | Inr r \<Rightarrow>
               (case split_files (row_files r) of
                  None \<Rightarrow> Inl PanicIndexOutOfRange
                | Some (names, hashes) \<Rightarrow>
                    Inr \<lparr>Id' = row_id r, Hash = row_hash r, Body = row_body r,
                         FileNames = names, FileHashes = hashes,
                         Timestamp = row_timestamp r\<rparr>))"

section \<open>The handlers\<close>

text \<open>
  What a handler writes: \<^verbatim>\<open>respondError(c, code, err)\<close> with the error it was
  given, the JSON object of a successful submission (its \<^verbatim>\<open>id\<close> and
  \<^verbatim>\<open>redirect\<close>), the page of \<^verbatim>\<open>route404\<close>, and the attachment served by
  \<^verbatim>\<open>http.ServeContent\<close> after the \<^verbatim>\<open>Content-Disposition\<close> header (the header's
  value, the name, the modification time and the content). \<open>Panic\<close> stands for
  a run-time panic of the handler, which writes nothing of its own.
\<close>

datatype error_message =
    HashArgumentRequired
  | FailedToOpenFile string file_error
  | S3UploadFailed s3_error
  | SubmitFailed db_error

datatype response =
    RespondError nat error_message
  | SubmitOK string string
  | Route404
  | ServeContent string string go_time string
  | Panic

text \<open>
  The state of the service: the bucket and the table. What the outside decides
  during one \<^verbatim>\<open>POST /submit\<close>: the clock read for the \<open>i\<close>-th file, the
  failures of its upload, the failure of the \<^verbatim>\<open>INSERT\<close> and the clock read
  for the row's timestamp.
\<close>

record server =
  s3 :: bucket
  db :: uploads_db

record submit_env =
  file_now :: "nat \<Rightarrow> go_time"
  upload_err :: "nat \<Rightarrow> s3_error option"
  wait_err :: "nat \<Rightarrow> bool"
  insert_err :: "db_error option"
  insert_now :: int

text \<open>
  The parsed multipart form: \<^verbatim>\<open>form.Value["body"]\<close> and \<^verbatim>\<open>form.File["files"]\<close>.
  The handler drops the error of \<^verbatim>\<open>c.MultipartForm()\<close>, so a request that does
  not parse leaves \<^verbatim>\<open>form\<close> nil (\<open>None\<close>) and the handler panics on it, as
  it does on \<^verbatim>\<open>form.Value["body"][0]\<close> when the field is missing.
\<close>

record multipart_form =
  Value_body :: "string list"
  File_files :: "FileHeader list"

text \<open>
  The key of an attachment is the hash of its gob, and an entry of
  \<^verbatim>\<open>fileNameHashPairs\<close> is
  \<^verbatim>\<open>fmt.Sprintf("%s/%s", strings.TrimSpace(fileHeader.Filename), hash)\<close>.
\<close>

definition attachment_key :: "extern \<Rightarrow> FileObject \<Rightarrow> string" where
  "attachment_key ext fileObject = sha1_hex ext (gob_Encode ext fileObject)"

definition fileNameHashPair :: "string \<Rightarrow> string \<Rightarrow> string" where
  "fileNameHashPair filename hash = TrimSpace filename @ ''/'' @ hash"

text \<open>
  The loop over \<^verbatim>\<open>fileHeaders\<close> from index \<open>i\<close> on: the bucket afterwards, and
  either the response of the \<^verbatim>\<open>return\<close> that left the loop or the entries
  \<^verbatim>\<open>fileNameHashPairs[i..]\<close>.
\<close>

fun submit_files ::
  "extern \<Rightarrow> submit_env \<Rightarrow> nat \<Rightarrow> FileHeader list \<Rightarrow> bucket \<Rightarrow> bucket \<times> (response + string list)" where
  "submit_files ext env i [] bkt = (bkt, Inr [])"
| "submit_files ext env i (fileHeader # fileHeaders) bkt =
     (case NewFileObject fileHeader (file_now env i) of
        Inl err \<Rightarrow> (bkt, Inl (RespondError 500 (FailedToOpenFile (fh_Filename fileHeader) err)))
      | Inr fileObject \<Rightarrow>
          (let buffer = gob_Encode ext fileObject;
               hash = attachment_key ext fileObject
           in case UploadObject (upload_err env i) (wait_err env i) bkt hash buffer of
                (bkt', _, Some err) \<Rightarrow> (bkt', Inl (RespondError 500 (S3UploadFailed err)))
              | (bkt', _, None) \<Rightarrow>
                  (case submit_files ext env (Suc i) fileHeaders bkt' of
                     (bkt'', Inl rsp) \<Rightarrow> (bkt'', Inl rsp)
                   | (bkt'', Inr pairs) \<Rightarrow>
                       (bkt'', Inr (fileNameHashPair (fh_Filename fileHeader) hash # pairs)))))"

text \<open>
  \<^verbatim>\<open>r.POST("/submit", ...)\<close>. \<^verbatim>\<open>hash[:10]\<close> cannot panic: the hash has forty
  characters (lemma \<open>length_sha1_hex\<close>).
\<close>

definition post_submit ::
  "extern \<Rightarrow> submit_env \<Rightarrow> server \<Rightarrow> multipart_form option \<Rightarrow> server \<times> response" where
  "post_submit ext env srv form =
     (case form of
        None \<Rightarrow> (srv, Panic)
      | Some f \<Rightarrow>
          (case Value_body f of
             [] \<Rightarrow> (srv, Panic)
           | body # _ \<Rightarrow>
               (case submit_files ext env 0 (File_files f) (s3 srv) of
                  (bkt, Inl rsp) \<Rightarrow> (srv\<lparr>s3 := bkt\<rparr>, rsp)
                | (bkt, Inr fileNameHashPairs) \<Rightarrow>
                    (case SubmitUpload ext (insert_err env) (insert_now env) (db srv) body
                            fileNameHashPairs of
                       (d, Inl err) \<Rightarrow> (\<lparr>s3 = bkt, db = d\<rparr>, RespondError 409 (SubmitFailed err))
                     | (d, Inr hash) \<Rightarrow>
                         (\<lparr>s3 = bkt, db = d\<rparr>,
                          SubmitOK (take 10 hash) (baseurl ext @ ''/'' @ take 10 hash))))))"

text \<open>
  \<^verbatim>\<open>r.GET("/download", ...)\<close> writes in sequence: the branch for an empty
  \<^verbatim>\<open>hash\<close> responds and does not return, so the handler goes on. The error of
  \<^verbatim>\<open>decoder.Decode(file)\<close> is not looked at: whatever the decoder left in
  \<^verbatim>\<open>file\<close> is served.
\<close>

definition get_download :: "extern \<Rightarrow> s3_error option \<Rightarrow> bucket \<Rightarrow> string \<Rightarrow> response list" where
  "get_download ext download_err bkt hash =
     (if hash = [] then [RespondError 400 HashArgumentRequired] else []) @
     (case DownloadLargeObject download_err bkt hash of
        Inl err \<Rightarrow> [Route404]
      | Inr data \<Rightarrow>
          if length data = 0 then [Route404]
          else (case gob_Decode ext data of
                  (file, decode_failed) \<Rightarrow>
                    [ServeContent (''attachment; filename='' @ Filename file) (Filename file)
                       (Modtime file) (Contents file)]))"

section \<open>The page's script\<close>

text \<open>
  A JavaScript string is a sequence of UTF-16 code units. \<^verbatim>\<open>trim()\<close> removes
  the leading and trailing code units that are WhiteSpace or LineTerminator in
  ECMAScript: U+0009 to U+000D, U+0020, U+00A0, U+1680, U+2000 to U+200A,
  U+2028, U+2029, U+202F, U+205F, U+3000 and U+FEFF.
\<close>

type_synonym js_string = "16 word list"

definition js_whitespace :: "16 word \<Rightarrow> bool" where
  "js_whitespace c \<longleftrightarrow>
     (0x09 \<le> c \<and> c \<le> 0x0D) \<or> c = 0x20 \<or> c = 0xA0 \<or> c = 0x1680
       \<or> (0x2000 \<le> c \<and> c \<le> 0x200A) \<or> c = 0x2028 \<or> c = 0x2029 \<or> c = 0x202F
       \<or> c = 0x205F \<or> c = 0x3000 \<or> c = 0xFEFF"

definition js_trim :: "js_string \<Rightarrow> js_string" where
  "js_trim s = rev (dropWhile js_whitespace (rev (dropWhile js_whitespace s)))"

text \<open>
  \<^verbatim>\<open>submit()\<close> of the upload page: every file picker contributes its first
  file if it has one, the body is the trimmed text area, and the function
  returns without a request when both are empty. Otherwise the result is the
  form data that \<^verbatim>\<open>fetch("/submit", ...)\<close> posts.
\<close>

record 'f form_data =
  fd_files :: "'f list"
  fd_body :: js_string

definition submit :: "js_string \<Rightarrow> 'f list list \<Rightarrow> 'f form_data option" where
  "submit textArea_value pickers =
     (let files = concat (map (\<lambda>fileInput_files.
                     if length fileInput_files < 1 then [] else [hd fileInput_files]) pickers);
          body = js_trim textArea_value
      in if length body = 0 \<and> length files = 0 then None
         else Some \<lparr>fd_files = files, fd_body = body\<rparr>)"

text \<open>
  The page and the service together: the browser posts the form data as a
  multipart body, the text field encoded by \<open>utf8\<close>, and the handler runs on
  it. Without a request the service is not reached.
\<close>

definition page_submit ::
  "extern \<Rightarrow> submit_env \<Rightarrow> (js_string \<Rightarrow> string) \<Rightarrow> server \<Rightarrow> js_string \<Rightarrow> FileHeader list list
     \<Rightarrow> server \<times> response option" where
  "page_submit ext env utf8 srv textArea_value pickers =
     (case submit textArea_value pickers of
        None \<Rightarrow> (srv, None)
      | Some formData \<Rightarrow>
          (case post_submit ext env srv
                  (Some \<lparr>Value_body = [utf8 (fd_body formData)],
                         File_files = fd_files formData\<rparr>) of
             (srv', rsp) \<Rightarrow> (srv', Some rsp)))"

section \<open>Invariants of the table and a sample of the parameters\<close>

text \<open>
  Two properties of the table that the service keeps (lemmas
  \<open>post_submit_unique_hashes\<close> and \<open>post_submit_files_have_slash\<close>): the
  \<^verbatim>\<open>UNIQUE\<close> constraint on \<^verbatim>\<open>hash\<close>, and that every entry of \<^verbatim>\<open>files\<close> was
  built as a name, a \<^verbatim>\<open>"/"\<close> and a key.
\<close>

definition unique_hashes :: "uploads_db \<Rightarrow> bool" where
  "unique_hashes d \<longleftrightarrow> distinct (map row_hash (rows d))"

definition files_have_slash :: "uploads_db \<Rightarrow> bool" where
  "files_have_slash d \<longleftrightarrow>
     list_all (\<lambda>r. list_all (\<lambda>file. CHR ''/'' \<in> set file) (row_files r)) (rows d)"

text \<open>
  One choice of the parameters, to run the handlers on concrete requests: a
  digest that folds the bytes of the data into a number, and a codec that writes
  the name (after its length), the modification time and the content. The
  theorems do not depend on it.
\<close>

definition sample_Sum :: "string \<Rightarrow> digest" where
  "sample_Sum data = word_of_nat (foldl (\<lambda>h c. 1000003 * h + of_char c) 7 data)"

definition sample_Encode :: "FileObject \<Rightarrow> string" where
  "sample_Encode fileObject =
     char_of (length (Filename fileObject)) # Filename fileObject
       @ char_of (nat (Modtime fileObject)) # Contents fileObject"

definition sample_Decode :: "string \<Rightarrow> FileObject \<times> bool" where
  "sample_Decode data =
     (let zero = \<lparr>Filename = [], Header = Map.empty, Size = 0, Modtime = 0, Contents = []\<rparr>
      in case data of
           [] \<Rightarrow> (zero, True)
         | n # rest \<Rightarrow>
             if length rest \<le> of_char n then (zero, True)
             else (\<lparr>Filename = take (of_char n) rest, Header = Map.empty,
                    Size = int (length rest - of_char n - 1),
                    Modtime = of_char (rest ! of_char n),
                    Contents = drop (of_char n + 1) rest\<rparr>, False))"

definition sample_ext :: extern where
  "sample_ext = \<lparr>sha1_Sum = sample_Sum, gob_Encode = sample_Encode,
                  gob_Decode = sample_Decode, baseurl = ''http://localhost:8080''\<rparr>"

definition no_faults :: "go_time \<Rightarrow> submit_env" where
  "no_faults t = \<lparr>file_now = (\<lambda>i. t), upload_err = (\<lambda>i. None), wait_err = (\<lambda>i. False),
                  insert_err = None, insert_now = t\<rparr>"

definition empty_server :: server where
  "empty_server = \<lparr>s3 = Map.empty, db = \<lparr>rows = [], next_id = 1\<rparr>\<rparr>"

text \<open>A table with the one row of the text \<^verbatim>\<open>hello\<close> submitted without files.\<close>

definition one_row :: uploads_db where
  "one_row = \<lparr>rows = [\<lparr>row_id = 1, row_hash = sha1_hex sample_ext ''hello'', row_body = ''hello'',
                        row_files = [], row_timestamp = 100\<rparr>], next_id = 2\<rparr>"

text \<open>
  A file \<^verbatim>\<open>" a.txt "\<close> with the content \<^verbatim>\<open>abc\<close>, and the table after it was
  submitted with the text \<^verbatim>\<open>hello\<close> at time 7 to the empty service (lemma
  \<open>sample_submission\<close>).
\<close>

definition a_txt :: FileHeader where
  "a_txt = \<lparr>fh_Filename = '' a.txt '', fh_Header = Map.empty, fh_Size = 3, fh_Open = Inr ''abc''\<rparr>"

definition a_txt_object :: "go_time \<Rightarrow> FileObject" where
  "a_txt_object t = \<lparr>Filename = '' a.txt '', Header = Map.empty, Size = 3, Modtime = t,
                       Contents = ''abc''\<rparr>"

definition stored_a_txt :: uploads_db where
  "stored_a_txt =
     \<lparr>rows = [\<lparr>row_id = 1, row_hash = ''ec7ad569d67951c5c7396df8da7046a41636ea15'',
                row_body = ''hello'',
                row_files = [''a.txt/a83da7afe859f81eda3ed18b97b7dc6c0596dde4''],
                row_timestamp = 7\<rparr>],
      next_id = 2\<rparr>"

text \<open>
  A table whose row lists two files, \<^verbatim>\<open>" a.txt "\<close> and one named
  \<^verbatim>\<open>d/b.txt\<close>, under the same key.
\<close>

definition mixed_names :: uploads_db where
  "mixed_names =
     \<lparr>rows = [\<lparr>row_id = 1, row_hash = ''ec7ad569d67951c5c7396df8da7046a41636ea15'',
                row_body = ''hello'',
                row_files = [''a.txt/a83da7afe859f81eda3ed18b97b7dc6c0596dde4'',
                             ''d/b.txt/a83da7afe859f81eda3ed18b97b7dc6c0596dde4''],
                row_timestamp = 7\<rparr>],
      next_id = 2\<rparr>"

text \<open>
  Requests: the text \<^verbatim>\<open>hello\<close> with the file, with the file twice, and an
  empty text without files. An environment in which the upload of the second
  file fails, and one that differs from \<open>no_faults 7\<close> only in the clock read
  for the row.
\<close>

definition hello_form :: multipart_form where
  "hello_form = \<lparr>Value_body = [''hello''], File_files = [a_txt]\<rparr>"

definition two_files_form :: multipart_form where
  "two_files_form = \<lparr>Value_body = [''hello''], File_files = [a_txt, a_txt]\<rparr>"

definition empty_form :: multipart_form where
  "empty_form = \<lparr>Value_body = [[]], File_files = []\<rparr>"

definition second_upload_fails :: submit_env where
  "second_upload_fails =
     \<lparr>file_now = (\<lambda>i. 7), upload_err = (\<lambda>i. if i = 1 then Some S3Failure else None),
      wait_err = (\<lambda>i. False), insert_err = None, insert_now = 7\<rparr>"

definition same_files_later :: submit_env where
  "same_files_later =
     \<lparr>file_now = (\<lambda>i. 7), upload_err = (\<lambda>i. None), wait_err = (\<lambda>i. False),
      insert_err = None, insert_now = 9\<rparr>"

section \<open>Basic facts\<close>

lemma isValidHex_iff: "isValidHex s \<longleftrightarrow> (\<forall>c\<in>set s. isHexRune c)"
  by (induction s) auto

lemma hex_nat_cases:
  "(48 \<le> n \<and> n \<le> 57) \<or> (97 \<le> n \<and> n \<le> 102) \<or> (65 \<le> n \<and> n \<le> 70) \<Longrightarrow>
   n \<in> {48, 49, 50, 51, 52, 53, 54, 55, 56, 57, 97, 98, 99, 100, 101, 102,
      65, 66, 67, 68, 69, 70::nat}"
  by (simp only: insert_iff empty_iff) arith

lemma isHexRune_iff: "isHexRune c \<longleftrightarrow> c \<in> set ''0123456789abcdefABCDEF''"
proof
  assume "c \<in> set ''0123456789abcdefABCDEF''"
  then show "isHexRune c" by (auto simp: isHexRune_def)
next
  assume h: "isHexRune c"
  have inj: "\<And>d. (of_char c :: nat) = of_char d \<Longrightarrow> c = d" by simp
  from h have "(48 \<le> (of_char c :: nat) \<and> (of_char c :: nat) \<le> 57)
      \<or> (97 \<le> (of_char c :: nat) \<and> (of_char c :: nat) \<le> 102)
      \<or> (65 \<le> (of_char c :: nat) \<and> (of_char c :: nat) \<le> 70)"
    by (simp add: isHexRune_def less_eq_char_def)
  then have "(of_char c :: nat) \<in> {48, 49, 50, 51, 52, 53, 54, 55, 56, 57, 97, 98, 99, 100,
      101, 102, 65, 66, 67, 68, 69, 70}"
    by (rule hex_nat_cases)
  also have "\<dots> = of_char ` set ''0123456789abcdefABCDEF''"
    by simp
  finally show "c \<in> set ''0123456789abcdefABCDEF''"
    using inj by blast
qed

lemma isValidHex_set: "isValidHex s \<longleftrightarrow> set s \<subseteq> set ''0123456789abcdefABCDEF''"
  unfolding isValidHex_iff isHexRune_iff by blast

lemma hexDigit_lower: "hexDigit n \<in> set ldigits"
  unfolding hexDigit_def by (rule nth_mem) (simp add: ldigits_def)

lemma set_Sprintf_x: "set (Sprintf_x bs) \<subseteq> set ldigits"
  unfolding Sprintf_x_def using hexDigit_lower by (induction bs) simp_all

lemma length_Sprintf_x: "length (Sprintf_x bs) = 2 * length bs"
  unfolding Sprintf_x_def by (induction bs) auto

lemma length_digest_hex: "length (Sprintf_x (digest_bytes dg)) = 40"
  by (simp add: length_Sprintf_x digest_bytes_def)

lemma slash_notin_digest_hex: "CHR ''/'' \<notin> set (Sprintf_x (digest_bytes dg))"
proof -
  have "CHR ''/'' \<notin> set ldigits" by (simp add: ldigits_def)
  with set_Sprintf_x [of "digest_bytes dg"] show ?thesis by blast
qed

lemma length_sha1_hex: "length (sha1_hex ext data) = 40"
  by (simp add: sha1_hex_def length_digest_hex)

lemma set_sha1_hex: "set (sha1_hex ext data) \<subseteq> set ldigits"
  unfolding sha1_hex_def by (rule set_Sprintf_x)

lemma isValidHex_sha1_hex: "isValidHex (sha1_hex ext data)"
proof -
  have "set ldigits \<subseteq> set ''0123456789abcdefABCDEF''" by (simp add: ldigits_def)
  with set_sha1_hex [of ext data] show ?thesis
    unfolding isValidHex_set by blast
qed

lemma Join_empty_sep: "Join elems [] = concat elems"
  by (induction elems "[] :: string" rule: Join.induct) auto

lemma Split_no_sep: "sep \<notin> set s \<Longrightarrow> Split s sep = [s]"
  by (induction s) auto

lemma Split_nonempty: "Split s sep \<noteq> []"
  by (induction s) (auto split: list.splits)

section \<open>The loop over the files, and what the handler keeps\<close>

lemma submit_files_Inr:
  "submit_files ext env i fhs bkt = (bkt', Inr pairs) \<Longrightarrow>
   length pairs = length fhs \<and>
   (\<forall>j<length fhs. \<exists>fo. NewFileObject (fhs ! j) (file_now env (i + j)) = Inr fo
        \<and> upload_err env (i + j) = None
        \<and> pairs ! j = fileNameHashPair (fh_Filename (fhs ! j)) (attachment_key ext fo))"
proof (induction fhs arbitrary: i bkt bkt' pairs)
  case Nil
  then show ?case by simp
next
  case (Cons fh fhs)
  from Cons.prems obtain fo where fo: "NewFileObject fh (file_now env i) = Inr fo"
    by (cases "NewFileObject fh (file_now env i)") auto
  from Cons.prems fo have up: "upload_err env i = None"
    by (cases "upload_err env i") (auto simp: UploadObject_def Let_def)
  from Cons.prems fo up obtain b rest where
    rest: "submit_files ext env (Suc i) fhs (bkt(attachment_key ext fo \<mapsto> gob_Encode ext fo)) = (b, Inr rest)"
    and pairs: "pairs = fileNameHashPair (fh_Filename fh) (attachment_key ext fo) # rest"
    by (auto simp: UploadObject_def Let_def split: prod.splits sum.splits)
  from Cons.IH [OF rest] have ih: "length rest = length fhs"
    "\<And>j. j < length fhs \<Longrightarrow> \<exists>fo. NewFileObject (fhs ! j) (file_now env (Suc i + j)) = Inr fo
        \<and> upload_err env (Suc i + j) = None
        \<and> rest ! j = fileNameHashPair (fh_Filename (fhs ! j)) (attachment_key ext fo)"
    by auto
  show ?case
  proof (intro conjI allI impI)
    show "length pairs = length (fh # fhs)" using ih(1) pairs by simp
  next
    fix j assume "j < length (fh # fhs)"
    then show "\<exists>fo. NewFileObject ((fh # fhs) ! j) (file_now env (i + j)) = Inr fo
        \<and> upload_err env (i + j) = None
        \<and> pairs ! j = fileNameHashPair (fh_Filename ((fh # fhs) ! j)) (attachment_key ext fo)"
      using fo up pairs ih(2) by (cases j) auto
  qed
qed

lemma submit_files_ok:
  "(\<forall>j<length fhs. (\<exists>c. fh_Open (fhs ! j) = Inr c) \<and> upload_err env (i + j) = None) \<Longrightarrow>
   \<exists>bkt' pairs. submit_files ext env i fhs bkt = (bkt', Inr pairs)"
proof (induction fhs arbitrary: i bkt)
  case Nil
  then show ?case by simp
next
  case (Cons fh fhs)
  from Cons.prems have "\<exists>c. fh_Open fh = Inr c" and up: "upload_err env i = None" by auto
  then obtain fo where fo: "NewFileObject fh (file_now env i) = Inr fo"
    by (auto simp: NewFileObject_def)
  have "\<forall>j<length fhs. (\<exists>c. fh_Open (fhs ! j) = Inr c) \<and> upload_err env (Suc i + j) = None"
    using Cons.prems by fastforce
  from Cons.IH [OF this] obtain b rest where
    "submit_files ext env (Suc i) fhs (bkt(attachment_key ext fo \<mapsto> gob_Encode ext fo)) = (b, Inr rest)"
    by blast
  with fo up show ?case by (simp add: UploadObject_def Let_def)
qed

lemma submit_files_upload_error:
  "j < length fhs \<Longrightarrow> upload_err env (i + j) = Some err \<Longrightarrow>
   \<exists>bkt' msg. submit_files ext env i fhs bkt = (bkt', Inl (RespondError 500 msg))"
proof (induction fhs arbitrary: i j bkt)
  case Nil
  then show ?case by simp
next
  case (Cons fh fhs)
  show ?case
  proof (cases "NewFileObject fh (file_now env i)")
    case (Inl e)
    then show ?thesis by simp
  next
    case (Inr fo)
    show ?thesis
    proof (cases "upload_err env i")
      case (Some e)
      with Inr show ?thesis by (simp add: UploadObject_def Let_def)
    next
      case None
      with Cons.prems obtain j' where j': "j = Suc j'" by (cases j) auto
      with Cons.prems have "j' < length fhs" "upload_err env (Suc i + j') = Some err" by auto
      from Cons.IH [OF this] obtain b msg where
        "submit_files ext env (Suc i) fhs (bkt(attachment_key ext fo \<mapsto> gob_Encode ext fo))
           = (b, Inl (RespondError 500 msg))"
        by blast
      with Inr None show ?thesis by (simp add: UploadObject_def Let_def)
    qed
  qed
qed

lemma submit_files_dom:
  "submit_files ext env i fhs bkt = (bkt', r) \<Longrightarrow> dom bkt \<subseteq> dom bkt'"
proof (induction fhs arbitrary: i bkt bkt' r)
  case Nil
  then show ?case by simp
next
  case (Cons fh fhs)
  show ?case
  proof (cases "NewFileObject fh (file_now env i)")
    case (Inl e)
    with Cons.prems show ?thesis by auto
  next
    case (Inr fo)
    show ?thesis
    proof (cases "upload_err env i")
      case (Some e)
      with Inr Cons.prems show ?thesis by (auto simp: UploadObject_def Let_def)
    next
      case None
      obtain b r' where rest:
        "submit_files ext env (Suc i) fhs (bkt(attachment_key ext fo \<mapsto> gob_Encode ext fo)) = (b, r')"
        by (cases "submit_files ext env (Suc i) fhs (bkt(attachment_key ext fo \<mapsto> gob_Encode ext fo))")
      with Inr None Cons.prems have "bkt' = b"
        by (auto simp: UploadObject_def Let_def split: sum.splits)
      moreover have "dom bkt \<subseteq> dom (bkt(attachment_key ext fo \<mapsto> gob_Encode ext fo))"
        by auto
      ultimately show ?thesis using Cons.IH [OF rest] by blast
    qed
  qed
qed


lemma insert_upload_unique:
  "unique_hashes d \<Longrightarrow> unique_hashes (fst (insert_upload fault d hash body files timestamp))"
  by (auto simp: insert_upload_def unique_hashes_def list_ex_iff split: option.splits)

lemma SubmitUpload_unique:
  "unique_hashes d \<Longrightarrow> unique_hashes (fst (SubmitUpload ext fault now d body pairs))"
  using insert_upload_unique [of d fault "sha1_hex ext (body @ Join pairs [])" body pairs now]
  by (auto simp: SubmitUpload_def Let_def split: prod.splits option.splits db_error.splits)

lemma post_submit_db:
  "db (fst (post_submit ext env srv form)) = db srv \<or>
   (\<exists>f body more bkt pairs. form = Some f \<and> Value_body f = body # more
      \<and> submit_files ext env 0 (File_files f) (s3 srv) = (bkt, Inr pairs)
      \<and> db (fst (post_submit ext env srv form))
          = fst (SubmitUpload ext (insert_err env) (insert_now env) (db srv) body pairs))"
proof (cases form)
  case None
  then show ?thesis by (simp add: post_submit_def)
next
  case (Some f)
  show ?thesis
  proof (cases "Value_body f")
    case Nil
    with Some show ?thesis by (simp add: post_submit_def)
  next
    case (Cons body more)
    obtain bkt r where sf: "submit_files ext env 0 (File_files f) (s3 srv) = (bkt, r)"
      by (cases "submit_files ext env 0 (File_files f) (s3 srv)")
    show ?thesis
    proof (cases r)
      case (Inl rsp)
      with Some Cons sf show ?thesis by (simp add: post_submit_def)
    next
      case (Inr pairs)
      obtain d res where su:
        "SubmitUpload ext (insert_err env) (insert_now env) (db srv) body pairs = (d, res)"
        by (cases "SubmitUpload ext (insert_err env) (insert_now env) (db srv) body pairs")
      then have "db (fst (post_submit ext env srv form)) = d"
        using Some Cons sf Inr by (cases res) (simp_all add: post_submit_def)
      with Some Cons sf Inr su show ?thesis by simp
    qed
  qed
qed

lemma post_submit_unique_hashes:
  "unique_hashes (db srv) \<Longrightarrow> unique_hashes (db (fst (post_submit ext env srv form)))"
  using post_submit_db [of ext env srv form] SubmitUpload_unique [of "db srv"] by auto

lemma slash_in_pair: "CHR ''/'' \<in> set (fileNameHashPair filename hash)"
  by (simp add: fileNameHashPair_def)

lemma SubmitUpload_files_have_slash:
  "files_have_slash d \<Longrightarrow> list_all (\<lambda>f. CHR ''/'' \<in> set f) pairs \<Longrightarrow>
   files_have_slash (fst (SubmitUpload ext fault now d body pairs))"
  by (auto simp: SubmitUpload_def insert_upload_def files_have_slash_def Let_def
      split: option.splits db_error.splits)

lemma post_submit_files_have_slash:
  assumes "files_have_slash (db srv)"
  shows "files_have_slash (db (fst (post_submit ext env srv form)))"
proof -
  {
    fix f body more bkt pairs
    assume sf: "submit_files ext env 0 (File_files f) (s3 srv) = (bkt, Inr pairs)"
    then have "\<forall>j<length pairs. CHR ''/'' \<in> set (pairs ! j)"
      using submit_files_Inr [of ext env 0 "File_files f" "s3 srv" bkt pairs] slash_in_pair
      by auto
    then have "list_all (\<lambda>f. CHR ''/'' \<in> set f) pairs"
      by (auto simp: list_all_length)
    from SubmitUpload_files_have_slash [OF assms this]
    have "files_have_slash (fst (SubmitUpload ext (insert_err env) (insert_now env) (db srv) body pairs))" .
  }
  then show ?thesis
    using post_submit_db [of ext env srv form] assms by auto
qed

lemma submit_files_Inl:
  "submit_files ext env i fhs bkt = (bkt', Inl rsp) \<Longrightarrow> \<exists>msg. rsp = RespondError 500 msg"
proof (induction fhs arbitrary: i bkt bkt')
  case Nil
  then show ?case by simp
next
  case (Cons fh fhs)
  show ?case
  proof (cases "NewFileObject fh (file_now env i)")
    case (Inl e)
    with Cons.prems show ?thesis by auto
  next
    case (Inr fo)
    show ?thesis
    proof (cases "upload_err env i")
      case (Some e)
      with Inr Cons.prems show ?thesis by (auto simp: UploadObject_def Let_def)
    next
      case None
      obtain b r' where rest:
        "submit_files ext env (Suc i) fhs (bkt(attachment_key ext fo \<mapsto> gob_Encode ext fo)) = (b, r')"
        by (cases "submit_files ext env (Suc i) fhs (bkt(attachment_key ext fo \<mapsto> gob_Encode ext fo))")
      with Inr None Cons.prems have "r' = Inl rsp"
        by (auto simp: UploadObject_def Let_def split: sum.splits)
      with Cons.IH rest show ?thesis by blast
    qed
  qed
qed

lemma unique_hash_count:
  "distinct (map row_hash rs) \<Longrightarrow> r \<in> set rs \<Longrightarrow>
   length (filter (\<lambda>r'. row_hash r' = row_hash r) rs) = 1"
proof (induction rs)
  case Nil
  then show ?case by simp
next
  case (Cons a rs)
  show ?case
  proof (cases "r = a")
    case True
    with Cons.prems have "filter (\<lambda>r'. row_hash r' = row_hash r) rs = []"
      by (auto simp: filter_empty_conv image_iff)
    with True show ?thesis by simp
  next
    case False
    with Cons.prems have "r \<in> set rs" "row_hash a \<noteq> row_hash r" by auto
    with Cons show ?thesis by simp
  qed
qed

lemma SubmitUpload_no_fault:
  assumes "hash = sha1_hex ext (body @ Join pairs [])"
  shows "snd (SubmitUpload ext None now d body pairs) = Inr hash"
    and "list_ex (\<lambda>r. row_hash r = hash) (rows (fst (SubmitUpload ext None now d body pairs)))"
    and "list_ex (\<lambda>r. row_hash r = hash) (rows d) \<Longrightarrow>
           rows (fst (SubmitUpload ext None now d body pairs)) = rows d"
  by (simp_all add: assms SubmitUpload_def insert_upload_def Let_def)

text \<open>The sample parameters, evaluated.\<close>

lemmas sample_eval = sha1_hex_def sample_ext_def sample_Sum_def Sprintf_x_def digest_bytes_def
  hexDigit_def ldigits_def upt_rec

lemma TrimSpace_a_txt: "TrimSpace '' a.txt '' = ''a.txt''"
  by code_simp

lemma sample_key_7:
  "attachment_key sample_ext (a_txt_object 7) = ''a83da7afe859f81eda3ed18b97b7dc6c0596dde4''"
  by (simp add: attachment_key_def a_txt_object_def sample_Encode_def sample_eval)

lemma sample_hash_7:
  "sha1_hex sample_ext ''helloa.txt/a83da7afe859f81eda3ed18b97b7dc6c0596dde4''
     = ''ec7ad569d67951c5c7396df8da7046a41636ea15''"
  by (simp add: sample_eval)

lemma sample_digest_hex:
  "Sprintf_x (digest_bytes 0xa83da7afe859f81eda3ed18b97b7dc6c0596dde4)
     = ''a83da7afe859f81eda3ed18b97b7dc6c0596dde4''"
  by (simp add: Sprintf_x_def digest_bytes_def hexDigit_def ldigits_def upt_rec)

lemma sample_key_8:
  "attachment_key sample_ext (a_txt_object 8) = ''a83da7afe859f81eda3ed18ba5989b4f28646abf''"
  by (simp add: attachment_key_def a_txt_object_def sample_Encode_def sample_eval)

lemma sample_hash_8:
  "sha1_hex sample_ext ''helloa.txt/a83da7afe859f81eda3ed18ba5989b4f28646abf''
     = ''c4d7a16f2d0a9ec9d1a992a7797e2d0388f837a6''"
  by (simp add: sample_eval)

lemma sample_hash_empty:
  "sha1_hex sample_ext [] = ''0000000000000000000000000000000000000007''"
  by (simp add: sample_eval)

lemma NewFileObject_a_txt: "NewFileObject a_txt t = Inr (a_txt_object t)"
  by (simp add: NewFileObject_def a_txt_def a_txt_object_def)

lemma pair_a_txt:
  "fileNameHashPair (fh_Filename a_txt) key = ''a.txt/'' @ key"
  by (simp add: fileNameHashPair_def a_txt_def TrimSpace_a_txt)

lemma sample_submission:
  "post_submit sample_ext (no_faults 7) empty_server (Some hello_form)
     = (\<lparr>s3 = [''a83da7afe859f81eda3ed18b97b7dc6c0596dde4'' \<mapsto> sample_Encode (a_txt_object 7)],
         db = stored_a_txt\<rparr>,
        SubmitOK ''ec7ad569d6'' ''http://localhost:8080/ec7ad569d6'')"
proof -
  have enc: "gob_Encode sample_ext = sample_Encode" and url: "baseurl sample_ext = ''http://localhost:8080''"
    by (simp_all add: sample_ext_def)
  show ?thesis
    by (simp add: post_submit_def hello_form_def no_faults_def empty_server_def
        NewFileObject_a_txt pair_a_txt UploadObject_def SubmitUpload_def insert_upload_def
        sample_key_7 sample_hash_7 stored_a_txt_def enc url Let_def)
qed

lemma sample_resubmission:
  "post_submit sample_ext (no_faults 8)
       \<lparr>s3 = [''a83da7afe859f81eda3ed18b97b7dc6c0596dde4'' \<mapsto> sample_Encode (a_txt_object 7)],
         db = stored_a_txt\<rparr> (Some hello_form)
     = (\<lparr>s3 = [''a83da7afe859f81eda3ed18b97b7dc6c0596dde4'' \<mapsto> sample_Encode (a_txt_object 7),
               ''a83da7afe859f81eda3ed18ba5989b4f28646abf'' \<mapsto> sample_Encode (a_txt_object 8)],
         db = \<lparr>rows = rows stored_a_txt @
                  [\<lparr>row_id = 2, row_hash = ''c4d7a16f2d0a9ec9d1a992a7797e2d0388f837a6'',
                    row_body = ''hello'',
                    row_files = [''a.txt/a83da7afe859f81eda3ed18ba5989b4f28646abf''],
                    row_timestamp = 8\<rparr>],
                next_id = 3\<rparr>\<rparr>,
        SubmitOK ''c4d7a16f2d'' ''http://localhost:8080/c4d7a16f2d'')"
proof -
  have enc: "gob_Encode sample_ext = sample_Encode" and url: "baseurl sample_ext = ''http://localhost:8080''"
    by (simp_all add: sample_ext_def)
  show ?thesis
    by (simp add: post_submit_def hello_form_def no_faults_def
        NewFileObject_a_txt pair_a_txt UploadObject_def SubmitUpload_def insert_upload_def
        sample_key_8 sample_hash_8 stored_a_txt_def enc url Let_def)
qed

section \<open>The insert and duplicates\<close>

text \<open>
  Claim C5. When the hash of an insert is already the hash of a row and the
  statement reaches the table, the unique violation (SQLSTATE 23505) is not
  returned: \<^verbatim>\<open>SubmitUpload\<close> returns the hash with a nil error, exactly as
  it does after a successful insert, and the rows are unchanged. Without such
  a row the new row is appended. Every other error of the insert is returned
  as it is, and the rows are unchanged.
\<close>

theorem SubmitUpload_absorbs_unique_violation:
  assumes "hash = sha1_hex ext (body @ Join fileNameHashPairs [])"
  shows "(list_ex (\<lambda>r. row_hash r = hash) (rows d) \<longrightarrow>
            snd (SubmitUpload ext None now d body fileNameHashPairs) = Inr hash \<and>
            rows (fst (SubmitUpload ext None now d body fileNameHashPairs)) = rows d)
       \<and> (\<not> list_ex (\<lambda>r. row_hash r = hash) (rows d) \<longrightarrow>
            snd (SubmitUpload ext None now d body fileNameHashPairs) = Inr hash \<and>
            rows (fst (SubmitUpload ext None now d body fileNameHashPairs)) =
              rows d @ [\<lparr>row_id = next_id d, row_hash = hash, row_body = body,
                         row_files = fileNameHashPairs, row_timestamp = now\<rparr>])
       \<and> (err \<noteq> PqError ''23505'' \<longrightarrow>
            SubmitUpload ext (Some err) now d body fileNameHashPairs = (d, Inl err))"
proof (intro conjI impI)
  assume "err \<noteq> PqError ''23505''"
  then show "SubmitUpload ext (Some err) now d body fileNameHashPairs = (d, Inl err)"
    by (cases err) (simp_all add: SubmitUpload_def insert_upload_def Let_def)
qed (simp_all add: assms SubmitUpload_def insert_upload_def Let_def)


theorem SubmitUpload_absorbs_unique_violation_witness:
  "list_ex (\<lambda>r. row_hash r = sha1_hex sample_ext ''hello'') (rows one_row)
   \<and> SubmitUpload sample_ext None 200 one_row ''hello'' []
       = (one_row\<lparr>next_id := 3\<rparr>, Inr (sha1_hex sample_ext ''hello''))
   \<and> PqError ''57P01'' \<noteq> PqError ''23505''
   \<and> SubmitUpload sample_ext (Some (PqError ''57P01'')) 200 one_row ''hello'' []
       = (one_row, Inl (PqError ''57P01''))
   \<and> SubmitUpload sample_ext (Some DriverError) 200 one_row ''hello'' [] = (one_row, Inl DriverError)"
proof -
  have h: "sha1_hex sample_ext ''hello'' = sha1_hex sample_ext (''hello'' @ Join [] [])"
    by simp
  have ex: "list_ex (\<lambda>r. row_hash r = sha1_hex sample_ext ''hello'') (rows one_row)"
    by (simp add: one_row_def)
  have nid: "next_id (fst (SubmitUpload sample_ext None 200 one_row ''hello'' [])) = 3"
    by (simp add: SubmitUpload_def insert_upload_def one_row_def Let_def)
  have r: "rows one_row = rows (one_row\<lparr>next_id := 3\<rparr>)" by simp
  show ?thesis
    using ex SubmitUpload_absorbs_unique_violation [OF h, of one_row 200 "PqError ''57P01''"]
      SubmitUpload_absorbs_unique_violation [OF h, of one_row 200 DriverError] nid
    by (auto simp: prod_eq_iff one_row_def)
qed


section \<open>Lookup by prefix\<close>

lemma Split_append_sep:
  "sep \<notin> set a \<Longrightarrow> Split (a @ sep # b) sep = a # Split b sep"
  by (induction a) auto


lemma split_files_slash:
  "list_all (\<lambda>file. CHR ''/'' \<in> set file) files \<Longrightarrow> \<exists>names hashes. split_files files = Some (names, hashes)"
proof (induction files)
  case Nil
  then show ?case by simp
next
  case (Cons f fs)
  then obtain names hashes where rest: "split_files fs = Some (names, hashes)" by auto
  from Cons.prems have "CHR ''/'' \<in> set f" by simp
  then obtain a b where "f = a @ CHR ''/'' # b" "CHR ''/'' \<notin> set a"
    by (meson split_list_first)
  then have "Split f (CHR ''/'') = a # Split b (CHR ''/'')"
    by (simp add: Split_append_sep)
  moreover obtain p ps where "Split b (CHR ''/'') = p # ps"
    using Split_nonempty [of b "CHR ''/''"] by (cases "Split b (CHR ''/'')") auto
  ultimately show ?case using rest by simp
qed

text \<open>
  Claim C6. \<^verbatim>\<open>GetUpload\<close> returns \<^verbatim>\<open>ErrHashInvalid\<close> exactly when the prefix
  has a character that is not a hex digit or its length is outside 10..40,
  whatever the state of the database. For a well-formed prefix that no stored
  hash starts with it returns \<^verbatim>\<open>sql.ErrNoRows\<close>; when some stored hash starts
  with it, it returns a row of the table whose hash starts with the prefix
  (on a table whose \<^verbatim>\<open>files\<close> entries were written by the submit handler).
\<close>

theorem GetUpload_prefix_lookup:
  "(GetUpload fault d prefix = Inl ErrHashInvalid \<longleftrightarrow>
      \<not> set prefix \<subseteq> set ''0123456789abcdefABCDEF'' \<or> length prefix < 10 \<or> 40 < length prefix)
   \<and> (set prefix \<subseteq> set ''0123456789abcdefABCDEF'' \<and> 10 \<le> length prefix \<and> length prefix \<le> 40 \<longrightarrow>
        ((\<forall>r\<in>set (rows d). take (length prefix) (row_hash r) \<noteq> prefix) \<longrightarrow>
           GetUpload None d prefix = Inl ErrNoRows)
      \<and> ((\<exists>r\<in>set (rows d). take (length prefix) (row_hash r) = prefix) \<and> files_have_slash d \<longrightarrow>
           (\<exists>upload r. GetUpload None d prefix = Inr upload \<and> r \<in> set (rows d)
              \<and> Hash upload = row_hash r \<and> Body upload = row_body r
              \<and> Id' upload = row_id r \<and> Timestamp upload = row_timestamp r
              \<and> take (length prefix) (Hash upload) = prefix)))"
proof (intro conjI impI)
  show "GetUpload fault d prefix = Inl ErrHashInvalid \<longleftrightarrow>
      \<not> set prefix \<subseteq> set ''0123456789abcdefABCDEF'' \<or> length prefix < 10 \<or> 40 < length prefix"
    unfolding GetUpload_def query_row_def isValidHex_set [symmetric]
    by (auto split: option.splits sum.splits prod.splits)
next
  assume v: "set prefix \<subseteq> set ''0123456789abcdefABCDEF'' \<and> 10 \<le> length prefix \<and> length prefix \<le> 40"
  then have valid: "\<not> (length prefix < 10 \<or> length prefix > 40 \<or> \<not> isValidHex prefix)"
    by (auto simp: isValidHex_set)
  {
    assume "\<forall>r\<in>set (rows d). take (length prefix) (row_hash r) \<noteq> prefix"
    then have "find (\<lambda>r. take (length prefix) (row_hash r) = prefix) (rows d) = None"
      by (simp add: find_None_iff)
    with valid show "GetUpload None d prefix = Inl ErrNoRows"
      by (simp add: GetUpload_def query_row_def)
  }
  {
    assume m: "(\<exists>r\<in>set (rows d). take (length prefix) (row_hash r) = prefix) \<and> files_have_slash d"
    then obtain r where r: "find (\<lambda>r. take (length prefix) (row_hash r) = prefix) (rows d) = Some r"
      by (cases "find (\<lambda>r. take (length prefix) (row_hash r) = prefix) (rows d)")
         (auto simp: find_None_iff)
    then have rin: "r \<in> set (rows d)" and rp: "take (length prefix) (row_hash r) = prefix"
      by (auto simp: find_Some_iff)
    from m rin have "list_all (\<lambda>file. CHR ''/'' \<in> set file) (row_files r)"
      by (auto simp: files_have_slash_def list_all_iff)
    then obtain names hashes where "split_files (row_files r) = Some (names, hashes)"
      using split_files_slash by blast
    with valid r rin rp
    show "\<exists>upload r. GetUpload None d prefix = Inr upload \<and> r \<in> set (rows d)
              \<and> Hash upload = row_hash r \<and> Body upload = row_body r
              \<and> Id' upload = row_id r \<and> Timestamp upload = row_timestamp r
              \<and> take (length prefix) (Hash upload) = prefix"
      by (simp add: GetUpload_def query_row_def) blast
  }
qed

theorem GetUpload_prefix_lookup_witness:
  "GetUpload None stored_a_txt [] = Inl ErrHashInvalid
   \<and> GetUpload None stored_a_txt ''9chars!!!'' = Inl ErrHashInvalid
   \<and> GetUpload None stored_a_txt ''g0000000000'' = Inl ErrHashInvalid
   \<and> GetUpload None stored_a_txt ''0123456789'' = Inl ErrNoRows
   \<and> files_have_slash stored_a_txt
   \<and> (\<exists>upload. GetUpload None stored_a_txt ''ec7ad569d6'' = Inr upload
         \<and> Hash upload = ''ec7ad569d67951c5c7396df8da7046a41636ea15'' \<and> Body upload = ''hello'')"
proof -
  have a: "GetUpload None stored_a_txt [] = Inl ErrHashInvalid"
    using GetUpload_prefix_lookup [of None stored_a_txt "[]"] by simp
  have b: "GetUpload None stored_a_txt ''9chars!!!'' = Inl ErrHashInvalid"
    using GetUpload_prefix_lookup [of None stored_a_txt "''9chars!!!''"] by simp
  have c: "GetUpload None stored_a_txt ''g0000000000'' = Inl ErrHashInvalid"
    using GetUpload_prefix_lookup [of None stored_a_txt "''g0000000000''"] by simp
  have d: "GetUpload None stored_a_txt ''0123456789'' = Inl ErrNoRows"
    using GetUpload_prefix_lookup [of None stored_a_txt "''0123456789''"]
    by (simp add: stored_a_txt_def)
  have s: "files_have_slash stored_a_txt"
    by (simp add: files_have_slash_def stored_a_txt_def)
  have e: "\<exists>upload. GetUpload None stored_a_txt ''ec7ad569d6'' = Inr upload
         \<and> Hash upload = ''ec7ad569d67951c5c7396df8da7046a41636ea15'' \<and> Body upload = ''hello''"
    using GetUpload_prefix_lookup [of None stored_a_txt "''ec7ad569d6''"] s
    by (auto simp: stored_a_txt_def)
  from a b c d s e show ?thesis by blast
qed

section \<open>Splitting the stored pairs\<close>

lemma Split_pair:
  "\<exists>p1 rest. Split (t @ CHR ''/'' # k) (CHR ''/'') = takeWhile (\<lambda>c. c \<noteq> CHR ''/'') t # p1 # rest
     \<and> (CHR ''/'' \<notin> set t \<longrightarrow> CHR ''/'' \<notin> set k \<longrightarrow> p1 = k)"
proof (induction t)
  case Nil
  obtain p ps where "Split k (CHR ''/'') = p # ps"
    using Split_nonempty [of k "CHR ''/''"] by (cases "Split k (CHR ''/'')") auto
  then show ?case by (auto simp: Split_no_sep)
next
  case (Cons c t)
  then show ?case by auto
qed

lemma split_files_pairs:
  "\<exists>hashes. split_files (map (\<lambda>(filename, dg). fileNameHashPair filename (Sprintf_x (digest_bytes dg))) atts)
      = Some (map (\<lambda>(filename, dg). takeWhile (\<lambda>c. c \<noteq> CHR ''/'') (TrimSpace filename)) atts, hashes)
    \<and> length hashes = length atts
    \<and> (\<forall>i<length atts. CHR ''/'' \<notin> set (TrimSpace (fst (atts ! i))) \<longrightarrow>
          hashes ! i = Sprintf_x (digest_bytes (snd (atts ! i))))"
proof (induction atts)
  case Nil
  then show ?case by simp
next
  case (Cons a atts)
  obtain filename dg where a: "a = (filename, dg)" by (cases a)
  obtain p1 rest where sp:
    "Split (TrimSpace filename @ CHR ''/'' # Sprintf_x (digest_bytes dg)) (CHR ''/'')
       = takeWhile (\<lambda>c. c \<noteq> CHR ''/'') (TrimSpace filename) # p1 # rest"
    "CHR ''/'' \<notin> set (TrimSpace filename) \<Longrightarrow> p1 = Sprintf_x (digest_bytes dg)"
    using Split_pair [of "TrimSpace filename" "Sprintf_x (digest_bytes dg)"]
      slash_notin_digest_hex [of dg] by blast
  from Cons.IH obtain hashes where ih:
    "split_files (map (\<lambda>(filename, dg). fileNameHashPair filename (Sprintf_x (digest_bytes dg))) atts)
      = Some (map (\<lambda>(filename, dg). takeWhile (\<lambda>c. c \<noteq> CHR ''/'') (TrimSpace filename)) atts, hashes)"
    "length hashes = length atts"
    "\<And>i. i < length atts \<Longrightarrow> CHR ''/'' \<notin> set (TrimSpace (fst (atts ! i))) \<Longrightarrow>
          hashes ! i = Sprintf_x (digest_bytes (snd (atts ! i)))"
    by blast
  have nth: "\<forall>i<length (a # atts). CHR ''/'' \<notin> set (TrimSpace (fst ((a # atts) ! i))) \<longrightarrow>
          (p1 # hashes) ! i = Sprintf_x (digest_bytes (snd ((a # atts) ! i)))"
  proof (intro allI impI)
    fix i assume "i < length (a # atts)" "CHR ''/'' \<notin> set (TrimSpace (fst ((a # atts) ! i)))"
    then show "(p1 # hashes) ! i = Sprintf_x (digest_bytes (snd ((a # atts) ! i)))"
      using sp(2) ih(3) by (cases i) (simp_all add: a)
  qed
  have "split_files (map (\<lambda>(filename, dg). fileNameHashPair filename (Sprintf_x (digest_bytes dg))) (a # atts))
      = Some (map (\<lambda>(filename, dg). takeWhile (\<lambda>c. c \<noteq> CHR ''/'') (TrimSpace filename)) (a # atts),
              p1 # hashes)"
    using sp(1) ih(1) by (simp add: a fileNameHashPair_def)
  with nth ih(2) show ?case by (intro exI [of _ "p1 # hashes"]) simp
qed

text \<open>
  Claim C10. \<^verbatim>\<open>GetUpload\<close> splits every stored entry at \<^verbatim>\<open>"/"\<close> and takes the
  first two pieces as name and key. For a row whose entries were built by the
  submit handler, as the trimmed file name, a \<^verbatim>\<open>"/"\<close> and the hex digest,
  \<^verbatim>\<open>GetUpload\<close> returns one name and one key per entry, and for every entry
  on its own: the returned \<^verbatim>\<open>FileNames[i]\<close> and \<^verbatim>\<open>FileHashes[i]\<close> are the
  trimmed name and the key of that entry exactly when its trimmed name
  contains no \<^verbatim>\<open>"/"\<close>, whatever the other entries of the row are.
\<close>

theorem GetUpload_inverts_pairs:
  assumes "10 \<le> length prefix" and "length prefix \<le> 40" and "isValidHex prefix"
    and "query_row None d prefix = Inr r"
    and "row_files r = map (\<lambda>(filename, dg). fileNameHashPair filename (Sprintf_x (digest_bytes dg))) atts"
  shows "\<exists>upload. GetUpload None d prefix = Inr upload
           \<and> length (FileNames upload) = length atts
           \<and> length (FileHashes upload) = length atts
           \<and> (\<forall>i<length atts.
                 (FileNames upload ! i = TrimSpace (fst (atts ! i))
                    \<and> FileHashes upload ! i = Sprintf_x (digest_bytes (snd (atts ! i))))
                 \<longleftrightarrow> CHR ''/'' \<notin> set (TrimSpace (fst (atts ! i))))"
proof -
  define names where
    "names = map (\<lambda>(filename, dg). takeWhile (\<lambda>c. c \<noteq> CHR ''/'') (TrimSpace filename)) atts"
  obtain hashes where sf: "split_files (row_files r) = Some (names, hashes)"
    and len: "length hashes = length atts"
    and hs: "\<And>i. i < length atts \<Longrightarrow> CHR ''/'' \<notin> set (TrimSpace (fst (atts ! i))) \<Longrightarrow>
          hashes ! i = Sprintf_x (digest_bytes (snd (atts ! i)))"
    using split_files_pairs [of atts] assms(5) unfolding names_def by auto
  have get: "GetUpload None d prefix =
      Inr \<lparr>Id' = row_id r, Hash = row_hash r, Body = row_body r,
           FileNames = names, FileHashes = hashes, Timestamp = row_timestamp r\<rparr>"
    using assms(1-4) sf by (simp add: GetUpload_def)
  have nm: "\<And>i. i < length atts \<Longrightarrow>
      names ! i = takeWhile (\<lambda>c. c \<noteq> CHR ''/'') (TrimSpace (fst (atts ! i)))"
    by (simp add: names_def case_prod_beta)
  have each: "\<forall>i<length atts.
      (names ! i = TrimSpace (fst (atts ! i))
         \<and> hashes ! i = Sprintf_x (digest_bytes (snd (atts ! i))))
      \<longleftrightarrow> CHR ''/'' \<notin> set (TrimSpace (fst (atts ! i)))"
  proof (intro allI impI)
    fix i assume i: "i < length atts"
    have "names ! i = TrimSpace (fst (atts ! i))
        \<longleftrightarrow> CHR ''/'' \<notin> set (TrimSpace (fst (atts ! i)))"
      unfolding nm [OF i] by (auto simp: takeWhile_eq_all_conv)
    with hs [OF i] show "(names ! i = TrimSpace (fst (atts ! i))
         \<and> hashes ! i = Sprintf_x (digest_bytes (snd (atts ! i))))
      \<longleftrightarrow> CHR ''/'' \<notin> set (TrimSpace (fst (atts ! i)))"
      by blast
  qed
  have "length names = length atts" by (simp add: names_def)
  with each len show ?thesis unfolding get by simp
qed

lemma TrimSpace_d_b_txt: "TrimSpace ''d/b.txt'' = ''d/b.txt''"
  by code_simp

theorem GetUpload_inverts_pairs_witness:
  "10 \<le> length ''ec7ad569d6'' \<and> length ''ec7ad569d6'' \<le> 40 \<and> isValidHex ''ec7ad569d6''
   \<and> query_row None mixed_names ''ec7ad569d6'' = Inr (hd (rows mixed_names))
   \<and> row_files (hd (rows mixed_names)) =
        map (\<lambda>(filename, dg). fileNameHashPair filename (Sprintf_x (digest_bytes dg)))
          [('' a.txt '', 0xa83da7afe859f81eda3ed18b97b7dc6c0596dde4),
           (''d/b.txt'', 0xa83da7afe859f81eda3ed18b97b7dc6c0596dde4)]
   \<and> CHR ''/'' \<notin> set (TrimSpace '' a.txt '')
   \<and> CHR ''/'' \<in> set (TrimSpace ''d/b.txt'')
   \<and> (\<exists>upload. GetUpload None mixed_names ''ec7ad569d6'' = Inr upload
         \<and> length (FileNames upload) = 2 \<and> length (FileHashes upload) = 2
         \<and> FileNames upload ! 0 = ''a.txt''
         \<and> FileHashes upload ! 0 = ''a83da7afe859f81eda3ed18b97b7dc6c0596dde4''
         \<and> \<not> (FileNames upload ! 1 = ''d/b.txt''
               \<and> FileHashes upload ! 1 = ''a83da7afe859f81eda3ed18b97b7dc6c0596dde4''))"
proof -
  have v: "10 \<le> length ''ec7ad569d6''" "length ''ec7ad569d6'' \<le> 40" "isValidHex ''ec7ad569d6''"
    by (simp_all add: isHexRune_def)
  have q: "query_row None mixed_names ''ec7ad569d6'' = Inr (hd (rows mixed_names))"
    by (simp add: query_row_def mixed_names_def)
  have f: "row_files (hd (rows mixed_names)) =
        map (\<lambda>(filename, dg). fileNameHashPair filename (Sprintf_x (digest_bytes dg)))
          [('' a.txt '', 0xa83da7afe859f81eda3ed18b97b7dc6c0596dde4),
           (''d/b.txt'', 0xa83da7afe859f81eda3ed18b97b7dc6c0596dde4)]"
    by (simp add: mixed_names_def fileNameHashPair_def TrimSpace_a_txt TrimSpace_d_b_txt
        sample_digest_hex)
  have n: "CHR ''/'' \<notin> set (TrimSpace '' a.txt '')" "CHR ''/'' \<in> set (TrimSpace ''d/b.txt'')"
    by (simp_all add: TrimSpace_a_txt TrimSpace_d_b_txt)
  from GetUpload_inverts_pairs [OF v q f] obtain upload where u:
    "GetUpload None mixed_names ''ec7ad569d6'' = Inr upload"
    "length (FileNames upload) = 2" "length (FileHashes upload) = 2"
    "\<forall>i<2. (FileNames upload ! i
               = TrimSpace (fst ([('' a.txt '', 0xa83da7afe859f81eda3ed18b97b7dc6c0596dde4 :: digest),
                                 (''d/b.txt'', 0xa83da7afe859f81eda3ed18b97b7dc6c0596dde4)] ! i))
             \<and> FileHashes upload ! i
               = Sprintf_x (digest_bytes (snd ([('' a.txt '', 0xa83da7afe859f81eda3ed18b97b7dc6c0596dde4 :: digest),
                                 (''d/b.txt'', 0xa83da7afe859f81eda3ed18b97b7dc6c0596dde4)] ! i))))
           \<longleftrightarrow> CHR ''/'' \<notin> set (TrimSpace (fst ([('' a.txt '', 0xa83da7afe859f81eda3ed18b97b7dc6c0596dde4 :: digest),
                                 (''d/b.txt'', 0xa83da7afe859f81eda3ed18b97b7dc6c0596dde4)] ! i)))"
    by auto
  from spec [OF u(4), of 0] n(1) have i0: "FileNames upload ! 0 = ''a.txt''
      \<and> FileHashes upload ! 0 = ''a83da7afe859f81eda3ed18b97b7dc6c0596dde4''"
    by (simp add: TrimSpace_a_txt sample_digest_hex)
  from spec [OF u(4), of 1] n(2) have i1: "\<not> (FileNames upload ! 1 = ''d/b.txt''
               \<and> FileHashes upload ! 1 = ''a83da7afe859f81eda3ed18b97b7dc6c0596dde4'')"
    by (simp add: TrimSpace_d_b_txt sample_digest_hex)
  from v q f n u(1-3) i0 i1 show ?thesis by blast
qed

section \<open>Submitting\<close>

text \<open>
  Claim C8. If the upload of any attachment of a submission fails, the handler
  responds with an error (status 500) and returns before \<^verbatim>\<open>SubmitUpload\<close>: the
  table is exactly as it was, so no row is created. Nothing is removed from the
  bucket, which keeps the blobs uploaded before the failure.
\<close>

theorem upload_failure_aborts_submission:
  assumes "Value_body f = body # others"
    and "i < length (File_files f)"
    and "upload_err env i = Some err"
  shows "\<exists>srv' msg. post_submit ext env srv (Some f) = (srv', RespondError 500 msg)
           \<and> db srv' = db srv \<and> dom (s3 srv) \<subseteq> dom (s3 srv')"
proof -
  from assms(2,3) obtain bkt msg where
    sf: "submit_files ext env 0 (File_files f) (s3 srv) = (bkt, Inl (RespondError 500 msg))"
    using submit_files_upload_error [of i "File_files f" env 0 err ext "s3 srv"] by auto
  then have "dom (s3 srv) \<subseteq> dom bkt" by (rule submit_files_dom)
  with sf assms(1) show ?thesis by (simp add: post_submit_def)
qed

theorem upload_failure_aborts_submission_witness:
  "Value_body two_files_form = ''hello'' # []
   \<and> 1 < length (File_files two_files_form)
   \<and> upload_err second_upload_fails 1 = Some S3Failure
   \<and> post_submit sample_ext second_upload_fails empty_server (Some two_files_form)
       = (\<lparr>s3 = [''a83da7afe859f81eda3ed18b97b7dc6c0596dde4'' \<mapsto> sample_Encode (a_txt_object 7)],
           db = db empty_server\<rparr>,
          RespondError 500 (S3UploadFailed S3Failure))"
proof -
  have a: "Value_body two_files_form = ''hello'' # []"
    and b: "1 < length (File_files two_files_form)"
    and c: "upload_err second_upload_fails 1 = Some S3Failure"
    by (simp_all add: two_files_form_def second_upload_fails_def)
  have enc: "gob_Encode sample_ext = sample_Encode" by (simp add: sample_ext_def)
  have run: "post_submit sample_ext second_upload_fails empty_server (Some two_files_form)
       = (\<lparr>s3 = [''a83da7afe859f81eda3ed18b97b7dc6c0596dde4'' \<mapsto> sample_Encode (a_txt_object 7)],
           db = db empty_server\<rparr>,
          RespondError 500 (S3UploadFailed S3Failure))"
    by (simp add: post_submit_def two_files_form_def second_upload_fails_def empty_server_def
        NewFileObject_a_txt UploadObject_def sample_key_7 enc Let_def)
  from upload_failure_aborts_submission [OF a b c, of sample_ext empty_server] a b c run
  show ?thesis by simp
qed

text \<open>
  Claim C4. When a submission succeeds, the hash of its row is the lowercase hex
  SHA-1 digest (forty characters) of the body followed by the entries
  \<^verbatim>\<open>filename/key\<close> in the order of the files, with nothing between them, where
  the file name is trimmed and the key is the hex SHA-1 digest of the file's gob;
  the handler returns exactly the first ten characters of that hash. A row with
  this hash is in the table afterwards, and a row the submission adds holds
  this hash, the body and the entries.
\<close>

theorem post_submit_hash:
  assumes "post_submit ext env srv form = (srv', SubmitOK ident redirect)"
  shows "\<exists>f body others pairs hash.
           form = Some f \<and> Value_body f = body # others
         \<and> length pairs = length (File_files f)
         \<and> (\<forall>j<length (File_files f). \<exists>fileObject.
               NewFileObject (File_files f ! j) (file_now env j) = Inr fileObject
             \<and> pairs ! j = TrimSpace (fh_Filename (File_files f ! j)) @ ''/''
                             @ sha1_hex ext (gob_Encode ext fileObject))
         \<and> hash = sha1_hex ext (body @ concat pairs)
         \<and> length hash = 40 \<and> set hash \<subseteq> set ''0123456789abcdef''
         \<and> ident = take 10 hash \<and> length ident = 10
         \<and> redirect = baseurl ext @ ''/'' @ ident
         \<and> (insert_err env = None \<longrightarrow> (\<exists>r\<in>set (rows (db srv')). row_hash r = hash))
         \<and> (rows (db srv') = rows (db srv) \<or>
            (\<exists>rid. rows (db srv') = rows (db srv) @
               [\<lparr>row_id = rid, row_hash = hash, row_body = body, row_files = pairs,
                 row_timestamp = insert_now env\<rparr>]))"
proof -
  from assms obtain f where form: "form = Some f"
    by (cases form) (auto simp: post_submit_def)
  from assms form obtain body others where body: "Value_body f = body # others"
    by (cases "Value_body f") (auto simp: post_submit_def)
  obtain bkt r where sf: "submit_files ext env 0 (File_files f) (s3 srv) = (bkt, r)"
    by (cases "submit_files ext env 0 (File_files f) (s3 srv)")
  from assms form body sf obtain pairs where r: "r = Inr pairs"
    using submit_files_Inl [of ext env 0 "File_files f" "s3 srv" bkt]
    by (cases r) (auto simp: post_submit_def)
  define hash where "hash = sha1_hex ext (body @ concat pairs)"
  obtain d res where su:
    "SubmitUpload ext (insert_err env) (insert_now env) (db srv) body pairs = (d, res)"
    by (cases "SubmitUpload ext (insert_err env) (insert_now env) (db srv) body pairs")
  from assms form body sf r su have out: "srv' = \<lparr>s3 = bkt, db = d\<rparr>"
    by (cases res) (auto simp: post_submit_def)
  from su have res_hash: "\<And>h. res = Inr h \<Longrightarrow> h = hash"
    by (auto simp: SubmitUpload_def Let_def hash_def Join_empty_sep
        split: prod.splits option.splits db_error.splits if_splits)
  from assms form body sf r su res_hash have id: "ident = take 10 hash"
    and red: "redirect = baseurl ext @ ''/'' @ take 10 hash"
    by (cases res; auto simp: post_submit_def)+
  have len: "length hash = 40" by (simp add: hash_def length_sha1_hex)
  have hex: "set hash \<subseteq> set ''0123456789abcdef''"
    using set_sha1_hex [of ext "body @ concat pairs"] by (simp add: hash_def ldigits_def)
  from sf r have pairs: "length pairs = length (File_files f)"
    "\<forall>j<length (File_files f). \<exists>fileObject.
               NewFileObject (File_files f ! j) (file_now env j) = Inr fileObject
             \<and> pairs ! j = TrimSpace (fh_Filename (File_files f ! j)) @ ''/''
                             @ sha1_hex ext (gob_Encode ext fileObject)"
    using submit_files_Inr [of ext env 0 "File_files f" "s3 srv" bkt pairs]
    by (auto simp: fileNameHashPair_def attachment_key_def)
  have stored: "insert_err env = None \<longrightarrow> (\<exists>r\<in>set (rows d). row_hash r = hash)"
    using su by (auto simp: SubmitUpload_def insert_upload_def Let_def hash_def Join_empty_sep
        list_ex_iff split: if_splits) blast
  have rows: "rows d = rows (db srv) \<or>
            (\<exists>rid. rows d = rows (db srv) @
               [\<lparr>row_id = rid, row_hash = hash, row_body = body, row_files = pairs,
                 row_timestamp = insert_now env\<rparr>])"
    using su by (auto simp: SubmitUpload_def insert_upload_def Let_def hash_def Join_empty_sep
        split: if_splits option.splits db_error.splits)
  show ?thesis
    using form body pairs len hex id red stored rows out hash_def
    by (intro exI [of _ f] exI [of _ body] exI [of _ others] exI [of _ pairs] exI [of _ hash]) simp
qed

theorem post_submit_hash_witness:
  "post_submit sample_ext (no_faults 7) empty_server (Some hello_form)
     = (\<lparr>s3 = [''a83da7afe859f81eda3ed18b97b7dc6c0596dde4'' \<mapsto> sample_Encode (a_txt_object 7)],
         db = stored_a_txt\<rparr>,
        SubmitOK ''ec7ad569d6'' ''http://localhost:8080/ec7ad569d6'')
   \<and> (\<exists>hash. length hash = 40 \<and> ''ec7ad569d6'' = take 10 hash
         \<and> (\<exists>r\<in>set (rows stored_a_txt). row_hash r = hash))"
proof -
  have "insert_err (no_faults 7) = None" by (simp add: no_faults_def)
  with post_submit_hash [OF sample_submission] sample_submission show ?thesis
    by (simp del: take_Cons_numeral) blast
qed

lemma different_hashes_two_rows:
  assumes "h1 = sha1_hex ext (body @ Join pairs1 [])"
    and "h2 = sha1_hex ext (body @ Join pairs2 [])"
    and "h1 \<noteq> h2"
    and "\<not> list_ex (\<lambda>r. row_hash r = h1) (rows d)"
    and "\<not> list_ex (\<lambda>r. row_hash r = h2) (rows d)"
  shows "rows (fst (SubmitUpload ext None now2
                 (fst (SubmitUpload ext None now1 d body pairs1)) body pairs2))
           = rows d @
             [\<lparr>row_id = next_id d, row_hash = h1, row_body = body, row_files = pairs1,
               row_timestamp = now1\<rparr>,
              \<lparr>row_id = next_id d + 1, row_hash = h2, row_body = body, row_files = pairs2,
               row_timestamp = now2\<rparr>]"
  using assms by (simp add: SubmitUpload_def insert_upload_def Let_def)

text \<open>
  Claim C1, amended. Two submissions of the same body and files give the same
  ten-character short hash, and the second adds no row, so that exactly one row
  carries the hash, provided that both runs compute the same key for every
  attachment (as they do when there is none) and that no upload and no insert
  fails. The table is any table with unique hashes. As the claim is written it
  fails: the handler stamps every attachment with \<^verbatim>\<open>time.Now()\<close> before it
  is encoded, so two submissions of one file at different times have different
  keys, hashes and short hashes, and make two rows
  (\<open>resubmission_with_attachment_counterexample\<close>, on the sample parameters;
  lemma \<open>different_hashes_two_rows\<close> gives the two rows for all parameters
  under which the hashes of the two runs differ).
\<close>

theorem resubmission_absorbed:
  assumes body: "Value_body f = body # others"
    and readable: "\<forall>j<length (File_files f). \<exists>contents. fh_Open (File_files f ! j) = Inr contents"
    and up1: "\<forall>j<length (File_files f). upload_err env1 j = None"
    and up2: "\<forall>j<length (File_files f). upload_err env2 j = None"
    and ins: "insert_err env1 = None" "insert_err env2 = None"
    and keys: "\<forall>j<length (File_files f). \<forall>fo1 fo2.
        NewFileObject (File_files f ! j) (file_now env1 j) = Inr fo1 \<longrightarrow>
        NewFileObject (File_files f ! j) (file_now env2 j) = Inr fo2 \<longrightarrow>
        attachment_key ext fo1 = attachment_key ext fo2"
    and uniq: "unique_hashes (db srv)"
    and run1: "post_submit ext env1 srv (Some f) = (srv1, rsp1)"
    and run2: "post_submit ext env2 srv1 (Some f) = (srv2, rsp2)"
  shows "\<exists>hash. rsp1 = SubmitOK (take 10 hash) (baseurl ext @ ''/'' @ take 10 hash)
           \<and> rsp2 = rsp1 \<and> length (take 10 hash) = 10
           \<and> rows (db srv2) = rows (db srv1)
           \<and> length (filter (\<lambda>r. row_hash r = hash) (rows (db srv2))) = 1"
proof -
  obtain bkt1 pairs1 where sf1: "submit_files ext env1 0 (File_files f) (s3 srv) = (bkt1, Inr pairs1)"
    using submit_files_ok [of "File_files f" env1 0 ext "s3 srv"] readable up1 by auto
  obtain bkt2 pairs2 where sf2: "submit_files ext env2 0 (File_files f) (s3 srv1) = (bkt2, Inr pairs2)"
    using submit_files_ok [of "File_files f" env2 0 ext "s3 srv1"] readable up2 by auto
  note p1 = submit_files_Inr [OF sf1] and p2 = submit_files_Inr [OF sf2]
  have same: "pairs1 = pairs2"
  proof (rule nth_equalityI)
    show "length pairs1 = length pairs2" using p1 p2 by simp
  next
    fix j assume "j < length pairs1"
    then have j: "j < length (File_files f)" using p1 by simp
    with p1 obtain fo1 where fo1: "NewFileObject (File_files f ! j) (file_now env1 j) = Inr fo1"
      "pairs1 ! j = fileNameHashPair (fh_Filename (File_files f ! j)) (attachment_key ext fo1)"
      by auto
    from j p2 obtain fo2 where fo2: "NewFileObject (File_files f ! j) (file_now env2 j) = Inr fo2"
      "pairs2 ! j = fileNameHashPair (fh_Filename (File_files f ! j)) (attachment_key ext fo2)"
      by auto
    from keys j fo1(1) fo2(1) have "attachment_key ext fo1 = attachment_key ext fo2" by blast
    with fo1(2) fo2(2) show "pairs1 ! j = pairs2 ! j" by simp
  qed
  define hash where "hash = sha1_hex ext (body @ Join pairs1 [])"
  define d1 where "d1 = fst (SubmitUpload ext None (insert_now env1) (db srv) body pairs1)"
  note su1 = SubmitUpload_no_fault [OF hash_def, where now = "insert_now env1" and d = "db srv"]
  have r1: "srv1 = \<lparr>s3 = bkt1, db = d1\<rparr>"
    "rsp1 = SubmitOK (take 10 hash) (baseurl ext @ ''/'' @ take 10 hash)"
    using run1 body sf1 ins(1) su1(1)
    by (auto simp: post_submit_def d1_def split: prod.splits sum.splits)
  have in1: "list_ex (\<lambda>r. row_hash r = hash) (rows d1)"
    using su1(2) by (simp add: d1_def)
  note su2 = SubmitUpload_no_fault [OF hash_def, where now = "insert_now env2" and d = d1]
  have r2: "db srv2 = fst (SubmitUpload ext None (insert_now env2) d1 body pairs1)"
    "rsp2 = SubmitOK (take 10 hash) (baseurl ext @ ''/'' @ take 10 hash)"
    using run2 body sf2 ins(2) su2(1) same r1(1)
    by (auto simp: post_submit_def split: prod.splits sum.splits)
  have rows2: "rows (db srv2) = rows (db srv1)"
    using su2(3) [OF in1] r1(1) r2(1) by simp
  have "unique_hashes d1"
    unfolding d1_def using uniq by (rule SubmitUpload_unique)
  moreover from in1 obtain r where "r \<in> set (rows d1)" "row_hash r = hash"
    by (auto simp: list_ex_iff)
  ultimately have "length (filter (\<lambda>r. row_hash r = hash) (rows d1)) = 1"
    using unique_hash_count [of "rows d1" r] by (auto simp: unique_hashes_def)
  with rows2 r1 r2 show ?thesis
    by (intro exI [of _ hash]) (simp add: hash_def length_sha1_hex)
qed

theorem resubmission_absorbed_witness:
  "unique_hashes (db empty_server)
   \<and> (\<exists>hash. snd (post_submit sample_ext (no_faults 7) empty_server (Some hello_form))
               = SubmitOK (take 10 hash) (baseurl sample_ext @ ''/'' @ take 10 hash)
         \<and> snd (post_submit sample_ext same_files_later
                  (fst (post_submit sample_ext (no_faults 7) empty_server (Some hello_form)))
                  (Some hello_form))
             = snd (post_submit sample_ext (no_faults 7) empty_server (Some hello_form))
         \<and> length (filter (\<lambda>r. row_hash r = hash)
              (rows (db (fst (post_submit sample_ext same_files_later
                  (fst (post_submit sample_ext (no_faults 7) empty_server (Some hello_form)))
                  (Some hello_form)))))) = 1)"
proof -
  have body: "Value_body hello_form = ''hello'' # []" by (simp add: hello_form_def)
  have readable: "\<forall>j<length (File_files hello_form).
      \<exists>contents. fh_Open (File_files hello_form ! j) = Inr contents"
    by (simp add: hello_form_def a_txt_def)
  have up1: "\<forall>j<length (File_files hello_form). upload_err (no_faults 7) j = None"
    by (simp add: no_faults_def)
  have up2: "\<forall>j<length (File_files hello_form). upload_err same_files_later j = None"
    by (simp add: same_files_later_def)
  have ins: "insert_err (no_faults 7) = None" "insert_err same_files_later = None"
    by (simp_all add: no_faults_def same_files_later_def)
  have keys: "\<forall>j<length (File_files hello_form). \<forall>fo1 fo2.
        NewFileObject (File_files hello_form ! j) (file_now (no_faults 7) j) = Inr fo1 \<longrightarrow>
        NewFileObject (File_files hello_form ! j) (file_now same_files_later j) = Inr fo2 \<longrightarrow>
        attachment_key sample_ext fo1 = attachment_key sample_ext fo2"
    by (simp add: no_faults_def same_files_later_def)
  have uniq: "unique_hashes (db empty_server)"
    by (simp add: unique_hashes_def empty_server_def)
  from resubmission_absorbed [OF body readable up1 up2 ins keys uniq surjective_pairing surjective_pairing]
  show ?thesis using uniq by blast
qed

theorem resubmission_with_attachment_counterexample:
  "snd (post_submit sample_ext (no_faults 7) empty_server (Some hello_form))
     = SubmitOK ''ec7ad569d6'' ''http://localhost:8080/ec7ad569d6''
   \<and> snd (post_submit sample_ext (no_faults 8)
            (fst (post_submit sample_ext (no_faults 7) empty_server (Some hello_form)))
            (Some hello_form))
     = SubmitOK ''c4d7a16f2d'' ''http://localhost:8080/c4d7a16f2d''
   \<and> length (rows (db (fst (post_submit sample_ext (no_faults 8)
            (fst (post_submit sample_ext (no_faults 7) empty_server (Some hello_form)))
            (Some hello_form))))) = 2"
  by (simp only: sample_submission sample_resubmission fst_conv snd_conv)
     (simp add: stored_a_txt_def)

section \<open>The empty submission\<close>

lemma js_trim_whitespace:
  assumes "\<forall>c\<in>set s. js_whitespace c"
  shows "js_trim s = []"
proof -
  from assms have "dropWhile js_whitespace s = []" by simp
  then show ?thesis unfolding js_trim_def by (metis dropWhile.simps(1) rev.simps(1))
qed

lemma no_files_picked:
  "\<forall>fileInput_files\<in>set pickers. fileInput_files = [] \<Longrightarrow>
   concat (map (\<lambda>fileInput_files.
          if length fileInput_files < 1 then [] else [hd fileInput_files]) pickers) = []"
  by (induction pickers) simp_all

text \<open>
  Claim C2, amended. The rule that a submission needs a text or a file is
  enforced by the page's script, not by the service: when the text area holds
  only white space and no file picker holds a file, \<^verbatim>\<open>submit()\<close> returns
  without a request, so the service is not reached, nothing is uploaded and no
  row is inserted. As the claim is written it fails: the handler of
  \<^verbatim>\<open>POST /submit\<close> has no such check, and a request with an empty body and no
  files is stored and answered with a short hash
  (\<open>empty_submission_stored_counterexample\<close>).
\<close>

theorem empty_submission_not_sent:
  assumes "\<forall>c\<in>set textArea_value. js_whitespace c"
    and "\<forall>fileInput_files\<in>set pickers. fileInput_files = []"
  shows "submit textArea_value pickers = None
       \<and> page_submit ext env utf8 srv textArea_value pickers = (srv, None)"
proof -
  have "submit textArea_value pickers = None"
    unfolding submit_def Let_def
    by (simp only: js_trim_whitespace [OF assms(1)] no_files_picked [OF assms(2)]) simp
  then show ?thesis by (simp add: page_submit_def)
qed

theorem empty_submission_not_sent_witness:
  "list_all js_whitespace [0x20, 0x0A, 0x09]
   \<and> submit [0x20, 0x0A, 0x09] ([[], []] :: FileHeader list list) = None
   \<and> page_submit sample_ext (no_faults 7) (\<lambda>s. []) empty_server [0x20, 0x0A, 0x09] [[], []]
       = (empty_server, None)"
proof -
  have a: "\<forall>c\<in>set [0x20, 0x0A, 0x09 :: 16 word]. js_whitespace c"
    by (simp add: js_whitespace_def)
  have b: "\<forall>fileInput_files\<in>set ([[], []] :: FileHeader list list). fileInput_files = []"
    by simp
  from a have c: "list_all js_whitespace [0x20, 0x0A, 0x09]"
    by (simp only: list_all_iff)
  from empty_submission_not_sent [OF a b] c show ?thesis by blast
qed

theorem empty_submission_stored_counterexample:
  "post_submit sample_ext (no_faults 7) empty_server (Some empty_form)
     = (\<lparr>s3 = Map.empty,
         db = \<lparr>rows = [\<lparr>row_id = 1, row_hash = ''0000000000000000000000000000000000000007'',
                         row_body = [], row_files = [], row_timestamp = 7\<rparr>],
               next_id = 2\<rparr>\<rparr>,
        SubmitOK ''0000000000'' ''http://localhost:8080/0000000000'')"
proof -
  have url: "baseurl sample_ext = ''http://localhost:8080''" by (simp add: sample_ext_def)
  show ?thesis
    by (simp add: post_submit_def empty_form_def no_faults_def empty_server_def
        SubmitUpload_def insert_upload_def sample_hash_empty url Let_def)
qed

section \<open>Downloads\<close>

lemma download_fetch_failure:
  assumes "DownloadLargeObject download_err bkt hash = Inl err \<or> bkt hash = Some []"
  shows "get_download ext download_err bkt hash
     = (if hash = [] then [RespondError 400 HashArgumentRequired] else []) @ [Route404]"
proof (cases "DownloadLargeObject download_err bkt hash")
  case (Inl e)
  then show ?thesis by (simp add: get_download_def)
next
  case (Inr data)
  with assms have "data = []"
    by (cases download_err) (simp_all add: DownloadLargeObject_def)
  with Inr show ?thesis by (simp add: get_download_def)
qed

text \<open>
  Claim C9 says that every failure of a download, a blob that does not decode
  included, is reported as not found. A failed fetch and an empty blob are
  (lemma \<open>download_fetch_failure\<close>). The error of \<^verbatim>\<open>decoder.Decode\<close> is not:
  when the object exists, is not empty and the decoder returns an error, the
  handler serves what the decoder left in the \<^verbatim>\<open>FileObject\<close> as an attachment,
  and the page of \<^verbatim>\<open>route404\<close> is not written.
\<close>

theorem download_ignores_decode_error:
  assumes "hash \<noteq> []" and "bkt hash = Some data" and "data \<noteq> []"
    and "gob_Decode ext data = (file, True)"
  shows "get_download ext None bkt hash
           = [ServeContent (''attachment; filename='' @ Filename file) (Filename file)
                (Modtime file) (Contents file)]
       \<and> Route404 \<notin> set (get_download ext None bkt hash)"
  using assms by (simp add: get_download_def DownloadLargeObject_def)

lemma sample_Decode_short:
  "gob_Decode sample_ext [CHR 0x05]
      = (\<lparr>Filename = [], Header = Map.empty, Size = 0, Modtime = 0, Contents = []\<rparr>, True)"
  by (simp add: sample_ext_def sample_Decode_def)

theorem download_ignores_decode_error_witness:
  "snd (gob_Decode sample_ext [CHR 0x05])
   \<and> get_download sample_ext None [''k'' \<mapsto> [CHR 0x05]] ''k''
       = [ServeContent ''attachment; filename='' [] 0 []]"
proof -
  have a: "''k'' \<noteq> []" and b: "[''k'' \<mapsto> [CHR 0x05]] ''k'' = Some [CHR 0x05]"
    and c: "[CHR 0x05] \<noteq> []"
    by simp_all
  from download_ignores_decode_error
      [where bkt = "[''k'' \<mapsto> [CHR 0x05]]" and hash = "''k''", OF a b c sample_Decode_short]
    sample_Decode_short
  show ?thesis by simp
qed

end
